theory Spec2Isabelle
  imports Complex_Main
begin

section \<open>The music player view (app/routes/home.tsx)\<close>

text \<open>
  The view is one React function component. Its state cells (\<open>useState\<close>) and its one
  reference cell (\<open>useRef\<close>) are the fields of a record; every handler of the component
  is a function from the state in which it is invoked to the state after it. The
  browser's audio element is modelled by what the component reads from it and does to
  it: the properties it assigns or reads, the methods it calls (kept as a log, in
  order) and the listeners it attaches. A handler that assigns to the element can
  throw; its result says so, and carries the state after it.
\<close>

subsection \<open>Numbers\<close>

text \<open>
  A JavaScript number is a finite value, a NaN or one of the two infinities. A finite
  double is represented by the real number it denotes (the two zeros are one value).
  \<open>parseFloat\<close>, which the slider handlers apply to the input's text, can return any
  of these.
\<close>

datatype number = Num real | NaN | PosInfinity | NegInfinity

text \<open>The comparison \<open>a <= b\<close> of JavaScript: false as soon as one side is NaN.\<close>

fun num_le :: "number \<Rightarrow> number \<Rightarrow> bool" where
  "num_le (Num a) (Num b) = (a \<le> b)"
| "num_le (Num a) PosInfinity = True"
| "num_le (Num a) NegInfinity = False"
| "num_le PosInfinity PosInfinity = True"
| "num_le PosInfinity (Num b) = False"
| "num_le PosInfinity NegInfinity = False"
| "num_le NegInfinity (Num b) = True"
| "num_le NegInfinity PosInfinity = True"
| "num_le NegInfinity NegInfinity = True"
| "num_le NaN b = False"
| "num_le a NaN = False"

text \<open>\<open>a || b\<close> on numbers: \<open>b\<close> when \<open>a\<close> is falsy (zero or NaN), else \<open>a\<close>.\<close>

fun num_or :: "number \<Rightarrow> number \<Rightarrow> number" where
  "num_or (Num a) b = (if a = 0 then b else Num a)"
| "num_or NaN b = b"
| "num_or PosInfinity b = PosInfinity"
| "num_or NegInfinity b = NegInfinity"

subsection \<open>Double precision\<close>

text \<open>
  The quotient of two doubles is the exact quotient rounded to the nearest double, a
  tie going to the even mantissa (IEEE 754). A double has a mantissa of 53 bits: in the
  binade \<open>[2^e, 2^(e+1))\<close> the doubles are the multiples of \<open>2^(e-52)\<close>, with \<open>-1022\<close>
  the least such \<open>e\<close> (below \<open>2^(-1022)\<close> the doubles stay evenly spaced), and a
  rounded magnitude of \<open>2^1024\<close> or more is an infinity. A real number is a double when
  rounding leaves it as it is.
\<close>

fun bit_length :: "nat \<Rightarrow> nat" where
  "bit_length n = (if n = 0 then 0 else Suc (bit_length (n div 2)))"

declare bit_length.simps [simp del]

text \<open>For \<open>x > 0\<close>, the exponent \<open>e\<close> of its binade: \<open>2^e \<le> x < 2^(e+1)\<close>.\<close>

definition exponent :: "real \<Rightarrow> int" where
  "exponent x =
     (if 1 \<le> x then int (bit_length (nat \<lfloor>x\<rfloor>)) - 1
      else - int (bit_length (nat (\<lceil>1 / x\<rceil> - 1))))"

definition ulp :: "real \<Rightarrow> real" where
  "ulp x = 2 powi (max (exponent x) (- 1022) - 52)"

definition round_half_even :: "real \<Rightarrow> int" where
  "round_half_even q =
     (if q - of_int \<lfloor>q\<rfloor> < 1 / 2 then \<lfloor>q\<rfloor>
      else if 1 / 2 < q - of_int \<lfloor>q\<rfloor> then \<lfloor>q\<rfloor> + 1
      else if even \<lfloor>q\<rfloor> then \<lfloor>q\<rfloor> else \<lfloor>q\<rfloor> + 1)"

definition round_double :: "real \<Rightarrow> number" where
  "round_double x =
     (if x = 0 then Num 0
      else if 2 powi 1024 \<le> of_int (round_half_even (\<bar>x\<bar> / ulp \<bar>x\<bar>)) * ulp \<bar>x\<bar>
      then (if x < 0 then NegInfinity else PosInfinity)
      else Num (sgn x * (of_int (round_half_even (\<bar>x\<bar> / ulp \<bar>x\<bar>)) * ulp \<bar>x\<bar>)))"

definition is_double :: "real \<Rightarrow> bool" where
  "is_double x = (round_double x = Num x)"

subsection \<open>Tracks\<close>

record track =
  track_id :: nat
  title :: string
  artist :: string
  url :: string

definition sampleTracks :: "track list" where
  "sampleTracks =
    [\<lparr>track_id = 1, title = ''Track 1'', artist = ''Artist 1'',
      url = ''https://www.soundjay.com/misc/sounds/bell-ringing-05.wav''\<rparr>,
     \<lparr>track_id = 2, title = ''Track 2'', artist = ''Artist 2'',
      url = ''https://www.soundjay.com/misc/sounds/bell-ringing-05.wav''\<rparr>,
     \<lparr>track_id = 3, title = ''Track 3'', artist = ''Artist 3'',
      url = ''https://www.soundjay.com/misc/sounds/bell-ringing-05.wav''\<rparr>]"

subsection \<open>The native playback handle\<close>

datatype method_call = Play | Pause

datatype media_event = TimeUpdate | LoadedMetadata | Ended

datatype listener = UpdateTime | UpdateDuration | HandleEnded

record audio =
  audio_src :: string
  audio_currentTime :: number
  audio_duration :: number
  audio_volume :: number
  audio_calls :: "method_call list"
  audio_listeners :: "(media_event \<times> listener) list"

definition call :: "method_call \<Rightarrow> audio \<Rightarrow> audio" where
  "call m a = a\<lparr>audio_calls := audio_calls a @ [m]\<rparr>"

text \<open>
  The listeners of an element are kept in the order in which they were added; adding
  one that is already there changes nothing, and removing one removes that one.
\<close>

definition addEventListener :: "media_event \<Rightarrow> listener \<Rightarrow> audio \<Rightarrow> audio" where
  "addEventListener ev l a =
     (if (ev, l) \<in> set (audio_listeners a) then a
      else a\<lparr>audio_listeners := audio_listeners a @ [(ev, l)]\<rparr>)"

definition removeEventListener :: "media_event \<Rightarrow> listener \<Rightarrow> audio \<Rightarrow> audio" where
  "removeEventListener ev l a =
     a\<lparr>audio_listeners := filter (\<lambda>p. p \<noteq> (ev, l)) (audio_listeners a)\<rparr>"

text \<open>
  Assigning to a property of the element runs the element's setter. By the HTML
  standard \<open>currentTime\<close> and \<open>volume\<close> take a finite number only: a NaN or an infinity
  is refused with a \<open>TypeError\<close>; \<open>volume\<close> also refuses a number outside \<open>[0, 1]\<close>, with
  an \<open>IndexSizeError\<close>. A refused assignment throws and leaves the element as it was.
  How the element then seeks within its media is not modelled: the position of the
  handle is the number last assigned to it.
\<close>

datatype dom_exception = TypeError | IndexSizeError

fun set_currentTime :: "number \<Rightarrow> audio \<Rightarrow> dom_exception + audio" where
  "set_currentTime (Num x) a = Inr (a\<lparr>audio_currentTime := Num x\<rparr>)"
| "set_currentTime NaN a = Inl TypeError"
| "set_currentTime PosInfinity a = Inl TypeError"
| "set_currentTime NegInfinity a = Inl TypeError"

fun set_volume :: "number \<Rightarrow> audio \<Rightarrow> dom_exception + audio" where
  "set_volume (Num x) a =
     (if 0 \<le> x \<and> x \<le> 1 then Inr (a\<lparr>audio_volume := Num x\<rparr>) else Inl IndexSizeError)"
| "set_volume NaN a = Inl TypeError"
| "set_volume PosInfinity a = Inl TypeError"
| "set_volume NegInfinity a = Inl TypeError"

subsection \<open>The component's state\<close>

text \<open>\<open>audioRef\<close> is \<open>None\<close> while \<open>audioRef.current\<close> is null.\<close>

record home_state =
  isPlaying :: bool
  currentTime :: number
  duration :: number
  volume :: number
  searchQuery :: string
  currentTrack :: track
  audioRef :: "audio option"

text \<open>The initial values of the hooks, in the order of the source.\<close>

definition initial_state :: home_state where
  "initial_state =
    \<lparr>isPlaying = False, currentTime = Num 0, duration = Num 0, volume = Num 0.7,
     searchQuery = [], currentTrack = sampleTracks ! 0, audioRef = None\<rparr>"

subsection \<open>Listeners on the handle (the effect hook)\<close>

definition updateTime :: "audio \<Rightarrow> home_state \<Rightarrow> home_state" where
  "updateTime a s = s\<lparr>currentTime := audio_currentTime a\<rparr>"

definition updateDuration :: "audio \<Rightarrow> home_state \<Rightarrow> home_state" where
  "updateDuration a s = s\<lparr>duration := audio_duration a\<rparr>"

definition handleEnded :: "home_state \<Rightarrow> home_state" where
  "handleEnded s = s\<lparr>isPlaying := False\<rparr>"

fun run_listener :: "listener \<Rightarrow> audio \<Rightarrow> home_state \<Rightarrow> home_state" where
  "run_listener UpdateTime a s = updateTime a s"
| "run_listener UpdateDuration a s = updateDuration a s"
| "run_listener HandleEnded a s = handleEnded s"

text \<open>The effect: nothing without a handle, else the three listeners are attached.\<close>

definition useEffect_setup :: "home_state \<Rightarrow> home_state" where
  "useEffect_setup s =
     (case audioRef s of
        None \<Rightarrow> s
      | Some a \<Rightarrow>
          s\<lparr>audioRef := Some (addEventListener Ended HandleEnded
                 (addEventListener LoadedMetadata UpdateDuration
                   (addEventListener TimeUpdate UpdateTime a)))\<rparr>)"

definition useEffect_cleanup :: "home_state \<Rightarrow> home_state" where
  "useEffect_cleanup s =
     (case audioRef s of
        None \<Rightarrow> s
      | Some a \<Rightarrow>
          s\<lparr>audioRef := Some (removeEventListener Ended HandleEnded
                 (removeEventListener LoadedMetadata UpdateDuration
                   (removeEventListener TimeUpdate UpdateTime a)))\<rparr>)"

text \<open>
  The handle emitting an event: the listeners attached for that event run in the order
  in which they were attached. The listeners read the handle as it is when the event
  is emitted.
\<close>

fun run_listeners ::
  "media_event \<Rightarrow> audio \<Rightarrow> (media_event \<times> listener) list \<Rightarrow> home_state \<Rightarrow> home_state" where
  "run_listeners ev a [] s = s"
| "run_listeners ev a ((e, l) # ls) s =
     run_listeners ev a ls (if e = ev then run_listener l a s else s)"

definition emit :: "media_event \<Rightarrow> home_state \<Rightarrow> home_state" where
  "emit ev s =
     (case audioRef s of
        None \<Rightarrow> s
      | Some a \<Rightarrow> run_listeners ev a (audio_listeners a) s)"

subsection \<open>The handlers\<close>

definition togglePlay :: "home_state \<Rightarrow> home_state" where
  "togglePlay s =
     (case audioRef s of
        None \<Rightarrow> s
      | Some a \<Rightarrow>
          s\<lparr>audioRef := Some (if isPlaying s then call Pause a else call Play a),
            isPlaying := \<not> isPlaying s\<rparr>)"

text \<open>
  The two slider handlers assign to the element, so they can throw. A handler that
  throws stops there: the state updates it requested before the throw are applied,
  those after it are never requested. \<open>state_after\<close> is the state after the handler
  either way, \<open>thrown\<close> the exception, if any.
\<close>

datatype handler_result = Returned home_state | Threw dom_exception home_state

fun state_after :: "handler_result \<Rightarrow> home_state" where
  "state_after (Returned s) = s"
| "state_after (Threw e s) = s"

fun thrown :: "handler_result \<Rightarrow> dom_exception option" where
  "thrown (Returned s) = None"
| "thrown (Threw e s) = Some e"

text \<open>
  \<open>time\<close> is the number that \<open>parseFloat\<close> reads from the input's value. The
  assignment to \<open>currentTime\<close> comes first: when it throws, \<open>setCurrentTime\<close> is not
  reached.
\<close>

definition handleSeek :: "number \<Rightarrow> home_state \<Rightarrow> handler_result" where
  "handleSeek time s =
     (case audioRef s of
        None \<Rightarrow> Returned s
      | Some a \<Rightarrow>
          (case set_currentTime time a of
             Inl e \<Rightarrow> Threw e s
           | Inr a' \<Rightarrow> Returned (s\<lparr>audioRef := Some a', currentTime := time\<rparr>)))"

text \<open>
  \<open>newVolume\<close> is the number that \<open>parseFloat\<close> reads from the input's value.
  \<open>setVolume\<close> comes first: when the assignment to \<open>volume\<close> throws, the displayed
  volume has the new value and the element its old one.
\<close>

definition handleVolumeChange :: "number \<Rightarrow> home_state \<Rightarrow> handler_result" where
  "handleVolumeChange newVolume s =
     (let s1 = s\<lparr>volume := newVolume\<rparr>
      in case audioRef s1 of
           None \<Rightarrow> Returned s1
         | Some a \<Rightarrow>
             (case set_volume newVolume a of
                Inl e \<Rightarrow> Threw e s1
              | Inr a' \<Rightarrow> Returned (s1\<lparr>audioRef := Some a'\<rparr>)))"

definition changeTrack :: "track \<Rightarrow> home_state \<Rightarrow> home_state" where
  "changeTrack t s =
     (let s1 = s\<lparr>currentTrack := t, isPlaying := False, currentTime := Num 0\<rparr>
      in case audioRef s1 of
           None \<Rightarrow> s1
         | Some a \<Rightarrow> s1\<lparr>audioRef := Some (a\<lparr>audio_src := url t\<rparr>)\<rparr>)"

text \<open>The search box: \<open>onChange={(e) => setSearchQuery(e.target.value)}\<close>.\<close>

definition setSearchQuery :: "string \<Rightarrow> home_state \<Rightarrow> home_state" where
  "setSearchQuery q s = s\<lparr>searchQuery := q\<rparr>"

text \<open>
  A state with the handle attached, as after the first render of the view: the element
  carries the active track's locator and a media of ten seconds, the effect attaches
  its listeners, and the element announces its metadata.
\<close>

definition loaded_audio :: audio where
  "loaded_audio =
    \<lparr>audio_src = url (sampleTracks ! 0), audio_currentTime = Num 0,
     audio_duration = Num 10, audio_volume = Num 1, audio_calls = [],
     audio_listeners = []\<rparr>"

definition mounted_state :: home_state where
  "mounted_state =
     emit LoadedMetadata (useEffect_setup (initial_state\<lparr>audioRef := Some loaded_audio\<rparr>))"

subsection \<open>Formatting a time\<close>

text \<open>
  \<open>formatTime\<close> divides by 60, takes the remainder by 60, floors both and prints them.
  \<open>x / c\<close> and \<open>x % c\<close> are given for a finite divisor \<open>c > 0\<close>, which is all the
  source uses. The quotient is rounded to a double. The remainder of two doubles and
  the floor of a double are doubles, so they are exact; the remainder of JavaScript
  takes the sign of the dividend (the quotient is truncated towards zero).
\<close>

definition truncate_real :: "real \<Rightarrow> int" where
  "truncate_real x = (if 0 \<le> x then \<lfloor>x\<rfloor> else \<lceil>x\<rceil>)"

fun num_div :: "number \<Rightarrow> real \<Rightarrow> number" where
  "num_div (Num x) c = round_double (x / c)"
| "num_div NaN c = NaN"
| "num_div PosInfinity c = PosInfinity"
| "num_div NegInfinity c = NegInfinity"

fun num_rem :: "number \<Rightarrow> real \<Rightarrow> number" where
  "num_rem (Num x) c = Num (x - c * of_int (truncate_real (x / c)))"
| "num_rem NaN c = NaN"
| "num_rem PosInfinity c = NaN"
| "num_rem NegInfinity c = NaN"

fun Math_floor :: "number \<Rightarrow> number" where
  "Math_floor (Num x) = Num (of_int \<lfloor>x\<rfloor>)"
| "Math_floor NaN = NaN"
| "Math_floor PosInfinity = PosInfinity"
| "Math_floor NegInfinity = NegInfinity"

definition digit_char :: "nat \<Rightarrow> char" where
  "digit_char d = char_of (48 + d)"

fun string_of_nat :: "nat \<Rightarrow> string" where
  "string_of_nat n =
     (if n < 10 then [digit_char n]
      else string_of_nat (n div 10) @ [digit_char (n mod 10)])"

declare string_of_nat.simps [simp del]

definition string_of_int :: "int \<Rightarrow> string" where
  "string_of_int i =
     (if i < 0 then CHR ''-'' # string_of_nat (nat (- i)) else string_of_nat (nat i))"

text \<open>
  \<open>Number.prototype.toString\<close>. JavaScript prints the shortest decimal digits that read
  back as the same double. For an integer below \<open>2^53\<close> in magnitude these are all its
  digits, in plain decimal notation. How it prints any other finite number (a
  fraction, an integer from \<open>2^53\<close> on, where digits are dropped, the exponent notation
  from \<open>10^21\<close> on) is the parameter \<open>other\<close>.
\<close>

fun toString :: "(real \<Rightarrow> string) \<Rightarrow> number \<Rightarrow> string" where
  "toString other (Num x) =
     (if x = of_int \<lfloor>x\<rfloor> \<and> \<bar>x\<bar> < 2 ^ 53 then string_of_int \<lfloor>x\<rfloor> else other x)"
| "toString other NaN = ''NaN''"
| "toString other PosInfinity = ''Infinity''"
| "toString other NegInfinity = ''-Infinity''"

text \<open>\<open>s.padStart(n, c)\<close> for a padding string of the single character \<open>c\<close>.\<close>

definition padStart :: "nat \<Rightarrow> char \<Rightarrow> string \<Rightarrow> string" where
  "padStart n c s = replicate (n - length s) c @ s"

definition formatTime :: "(real \<Rightarrow> string) \<Rightarrow> number \<Rightarrow> string" where
  "formatTime other time =
     (let minutes = Math_floor (num_div time 60);
          seconds = Math_floor (num_rem time 60)
      in toString other minutes @ '':'' @ padStart 2 (CHR ''0'') (toString other seconds))"

text \<open>
  The number a string of decimal digits denotes, to say what a printed number is
  without the printer.
\<close>

definition decimal_value :: "string \<Rightarrow> nat" where
  "decimal_value s = foldl (\<lambda>v c. 10 * v + (of_char c - 48)) 0 s"

subsection \<open>The sliders and the operations of the view\<close>

text \<open>
  The five operations a user has, each bound to its handler as in the markup: the
  play button (\<open>onClick={togglePlay}\<close>), the progress slider
  (\<open>onChange={handleSeek}\<close>), the volume slider (\<open>onChange={handleVolumeChange}\<close>), a
  click on a track of the list and typing in the search box.
\<close>

datatype operation =
  TogglePlay | Seek number | VolumeChange number | SelectTrack track | Search string

fun perform :: "operation \<Rightarrow> home_state \<Rightarrow> handler_result" where
  "perform TogglePlay s = Returned (togglePlay s)"
| "perform (Seek time) s = handleSeek time s"
| "perform (VolumeChange newVolume) s = handleVolumeChange newVolume s"
| "perform (SelectTrack t) s = Returned (changeTrack t s)"
| "perform (Search q) s = Returned (setSearchQuery q s)"

text \<open>
  The two slider handlers are bound to range inputs and to nothing else, and the
  markup gives these inputs their bounds: the progress slider has \<open>min="0"\<close> and
  \<open>max={duration || 0}\<close>, the volume slider \<open>min="0"\<close>, \<open>max="1"\<close> and \<open>step="0.1"\<close>. The
  value of a range input is a finite number within its bounds. \<open>within_slider\<close> says
  that the number an operation carries is one its slider can deliver (the step is
  left out: every multiple of the step within the bounds is admitted, and more); the
  other operations carry no number.
\<close>

fun within_slider :: "operation \<Rightarrow> home_state \<Rightarrow> bool" where
  "within_slider (Seek (Num x)) s =
     (0 \<le> x \<and> num_le (Num x) (num_or (duration s) (Num 0)))"
| "within_slider (Seek NaN) s = False"
| "within_slider (Seek PosInfinity) s = False"
| "within_slider (Seek NegInfinity) s = False"
| "within_slider (VolumeChange (Num x)) s = (0 \<le> x \<and> x \<le> 1)"
| "within_slider (VolumeChange NaN) s = False"
| "within_slider (VolumeChange PosInfinity) s = False"
| "within_slider (VolumeChange NegInfinity) s = False"
| "within_slider TogglePlay s = True"
| "within_slider (SelectTrack t) s = True"
| "within_slider (Search q) s = True"

text \<open>
  The invariant of the data model: the volume lies in \<open>[0, 1]\<close> and the elapsed time
  in \<open>[0, duration]\<close>.
\<close>

definition player_invariant :: "home_state \<Rightarrow> bool" where
  "player_invariant s =
     (num_le (Num 0) (volume s) \<and> num_le (volume s) (Num 1)
      \<and> num_le (Num 0) (currentTime s) \<and> num_le (currentTime s) (duration s))"

text \<open>
  While the element is not attached, no event has come from it and no seek has taken
  effect: the elapsed time and the duration are still the 0 they start with.
\<close>

definition idle_until_attached :: "home_state \<Rightarrow> bool" where
  "idle_until_attached s =
     (audioRef s = None \<longrightarrow> currentTime s = Num 0 \<and> duration s = Num 0)"

text \<open>
  Clamping a number to an interval, as \<open>Math.min(Math.max(x, lo), hi)\<close> computes it.
\<close>

fun Math_max :: "number \<Rightarrow> number \<Rightarrow> number" where
  "Math_max NaN b = NaN"
| "Math_max a NaN = NaN"
| "Math_max a b = (if num_le a b then b else a)"

fun Math_min :: "number \<Rightarrow> number \<Rightarrow> number" where
  "Math_min NaN b = NaN"
| "Math_min a NaN = NaN"
| "Math_min a b = (if num_le a b then a else b)"

definition clamp :: "number \<Rightarrow> number \<Rightarrow> number \<Rightarrow> number" where
  "clamp lo hi x = Math_min (Math_max x lo) hi"

section \<open>The documented remote-control API\<close>

text \<open>
  Modelled from the spec: the server behind \<open>POST /resume\<close> and \<open>POST /pause\<close>
  (\<open>api_server.py\<close>) is not among the sources; only its documentation is. The
  documentation says of \<open>/resume\<close> "If paused, resume playback, else throw error" and of
  \<open>/pause\<close> "If not paused, pause playback, else throw error". The player is modelled
  by its paused flag, its queue and its volume; an operation returns its outcome and
  the player after it, and a thrown error leaves the player as it was.
\<close>

record remote_player =
  paused :: bool
  queue :: "string list"
  remote_volume :: nat

datatype outcome = Success | Error

definition post_resume :: "remote_player \<Rightarrow> outcome \<times> remote_player" where
  "post_resume p = (if paused p then (Success, p\<lparr>paused := False\<rparr>) else (Error, p))"

definition post_pause :: "remote_player \<Rightarrow> outcome \<times> remote_player" where
  "post_pause p = (if \<not> paused p then (Success, p\<lparr>paused := True\<rparr>) else (Error, p))"

section \<open>Auxiliary facts\<close>

lemma audioRef_mounted_state:
  "audioRef mounted_state =
     Some (loaded_audio\<lparr>audio_listeners :=
       [(TimeUpdate, UpdateTime), (LoadedMetadata, UpdateDuration), (Ended, HandleEnded)]\<rparr>)"
  by (simp add: mounted_state_def emit_def updateDuration_def useEffect_setup_def
      addEventListener_def loaded_audio_def)

lemma fields_mounted_state:
  "isPlaying mounted_state = False" "currentTime mounted_state = Num 0"
  "duration mounted_state = Num 10" "volume mounted_state = Num 0.7"
  "currentTrack mounted_state = sampleTracks ! 0" "searchQuery mounted_state = []"
  by (simp_all add: mounted_state_def emit_def updateDuration_def useEffect_setup_def
      addEventListener_def loaded_audio_def initial_state_def)

lemma clamp_within:
  assumes "num_le lo x" and "num_le x hi"
  shows "clamp lo hi x = x"
  using assms by (cases lo; cases x; cases hi) (simp_all add: clamp_def)

lemma bit_length_eval:
  "bit_length 0 = 0"
  "n \<noteq> 0 \<Longrightarrow> bit_length n = Suc (bit_length (n div 2))"
  by (simp_all add: bit_length.simps [of n] bit_length.simps [of 0])

lemma bit_length_pos: "0 < n \<Longrightarrow> 0 < bit_length n"
  by (simp add: bit_length.simps [of n])

lemma bit_length_bounds:
  "0 < n \<Longrightarrow> 2 ^ (bit_length n - 1) \<le> n \<and> n < 2 ^ bit_length n"
proof (induction n rule: bit_length.induct)
  case (1 n)
  then have n: "n \<noteq> 0" by simp
  have b: "bit_length n = Suc (bit_length (n div 2))"
    using n by (simp add: bit_length.simps [of n])
  show ?case
  proof (cases "n div 2 = 0")
    case True
    with n have "n = 1" by presburger
    then show ?thesis
      by (simp add: bit_length_eval)
  next
    case False
    then have p: "0 < n div 2" by simp
    from "1.IH" [OF n p] have
      lo: "2 ^ (bit_length (n div 2) - 1) \<le> n div 2" and hi: "n div 2 < 2 ^ bit_length (n div 2)"
      by simp_all
    from bit_length_pos [OF p] have e: "2 ^ bit_length (n div 2) = 2 * 2 ^ (bit_length (n div 2) - 1)"
      by (cases "bit_length (n div 2)") simp_all
    have "(2::nat) ^ bit_length (n div 2) \<le> n"
      using lo unfolding e by presburger
    moreover have "n < 2 * 2 ^ bit_length (n div 2)"
      using hi by presburger
    ultimately show ?thesis
      by (simp add: b)
  qed
qed

lemma real_pow2_le: "(2::nat) ^ k \<le> n \<Longrightarrow> (2::real) ^ k \<le> real n"
proof -
  assume "(2::nat) ^ k \<le> n"
  then have "real (2 ^ k) \<le> real n" by (simp only: of_nat_le_iff)
  then show ?thesis by simp
qed

lemma real_lt_pow2: "n < (2::nat) ^ k \<Longrightarrow> real n + 1 \<le> (2::real) ^ k"
proof -
  assume "n < (2::nat) ^ k"
  then have "Suc n \<le> 2 ^ k" by simp
  then have "real (Suc n) \<le> real (2 ^ k)" by (simp only: of_nat_le_iff)
  then show ?thesis by simp
qed

lemma exponent_ge1:
  fixes x :: real
  assumes "1 \<le> x"
  shows "2 powi (exponent x) \<le> x \<and> x < 2 powi (exponent x + 1)"
proof -
  define n where "n = nat \<lfloor>x\<rfloor>"
  from assms have n: "0 < n" by (simp add: n_def)
  have nx1: "real n \<le> x"
    using assms by (simp add: n_def)
  have nx2: "x < real n + 1"
    using assms by (simp add: n_def)
  from bit_length_bounds [OF n] have
    lo: "2 ^ (bit_length n - 1) \<le> n" and hi: "n < 2 ^ bit_length n" by simp_all
  from bit_length_pos [OF n] obtain b where b: "bit_length n = Suc b"
    by (cases "bit_length n") simp_all
  have e: "exponent x = int b"
    using assms by (simp add: exponent_def n_def [symmetric] b)
  from lo b have "(2::real) ^ b \<le> real n"
    using real_pow2_le [of b n] by simp
  with nx1 have A: "(2::real) ^ b \<le> x" by linarith
  from hi b have "real n + 1 \<le> 2 ^ Suc b"
    using real_lt_pow2 [of n "Suc b"] by simp
  with nx2 have B: "x < 2 ^ Suc b" by linarith
  have P: "(2::real) powi (int b + 1) = 2 ^ Suc b"
  proof -
    have "int b + 1 = int (Suc b)" by simp
    then show ?thesis by (simp only: power_int_of_nat)
  qed
  have Q: "(2::real) powi (int b) = 2 ^ b"
    by (simp only: power_int_of_nat)
  from A B show ?thesis
    unfolding e P Q by blast
qed

lemma inv_le: "0 < x \<Longrightarrow> 0 < c \<Longrightarrow> 1 / x \<le> c \<Longrightarrow> 1 / c \<le> (x::real)"
  by (simp add: field_simps)

lemma inv_less: "0 < x \<Longrightarrow> 0 < c \<Longrightarrow> c < 1 / x \<Longrightarrow> (x::real) < 1 / c"
  by (simp add: field_simps)

lemma exponent_lt1:
  fixes x :: real
  assumes "0 < x" and "x < 1"
  shows "2 powi (exponent x) \<le> x \<and> x < 2 powi (exponent x + 1)"
proof -
  define c where "c = nat (\<lceil>1 / x\<rceil> - 1)"
  from assms have y: "1 < 1 / x" by simp
  then have "2 \<le> \<lceil>1 / x\<rceil>" by linarith
  then have c: "0 < c" by (simp add: c_def)
  have cy1: "real c < 1 / x"
    using \<open>2 \<le> \<lceil>1 / x\<rceil>\<close> unfolding c_def by linarith
  have cy2: "1 / x \<le> real c + 1"
    using \<open>2 \<le> \<lceil>1 / x\<rceil>\<close> unfolding c_def by linarith
  from bit_length_bounds [OF c] have
    lo: "2 ^ (bit_length c - 1) \<le> c" and hi: "c < 2 ^ bit_length c" by simp_all
  from bit_length_pos [OF c] obtain b where b: "bit_length c = Suc b"
    by (cases "bit_length c") simp_all
  have e: "exponent x = - int (Suc b)"
    using assms by (simp add: exponent_def c_def [symmetric] b)
  from lo b have "(2::real) ^ b \<le> real c"
    using real_pow2_le [of b c] by simp
  with cy1 have A: "(2::real) ^ b < 1 / x" by linarith
  from hi b have "real c + 1 \<le> 2 ^ Suc b"
    using real_lt_pow2 [of c "Suc b"] by simp
  with cy2 have B: "1 / x \<le> 2 ^ Suc b" by linarith
  have P: "(2::real) powi (- int (Suc b)) = 1 / 2 ^ Suc b"
    by (simp only: power_int_minus_divide power_int_of_nat)
  have Q: "(2::real) powi (- int (Suc b) + 1) = 1 / 2 ^ b"
  proof -
    have "- int (Suc b) + 1 = - int b" by simp
    then show ?thesis by (simp only: power_int_minus_divide power_int_of_nat)
  qed
  from B assms(1) have "1 / 2 ^ Suc b \<le> x"
    using inv_le [of x "2 ^ Suc b"] by simp
  moreover from A assms(1) have "x < 1 / 2 ^ b"
    using inv_less [of x "2 ^ b"] by simp
  ultimately show ?thesis
    unfolding e P Q by blast
qed

lemma exponent_bounds:
  fixes x :: real
  assumes "0 < x"
  shows "2 powi (exponent x) \<le> x \<and> x < 2 powi (exponent x + 1)"
  using assms exponent_ge1 [of x] exponent_lt1 [of x] by (cases "1 \<le> x") simp_all

lemma exponent_ge:
  fixes x :: real
  assumes "0 < x" and "2 powi j \<le> x"
  shows "j \<le> exponent x"
proof (rule ccontr)
  assume "\<not> j \<le> exponent x"
  then have "exponent x + 1 \<le> j" by simp
  then have "(2::real) powi (exponent x + 1) \<le> 2 powi j"
    by (simp add: power_int_increasing)
  with exponent_bounds [OF assms(1)] assms(2) show False by linarith
qed

lemma exponent_less:
  fixes x :: real
  assumes "0 < x" and "x < 2 powi j"
  shows "exponent x < j"
proof (rule ccontr)
  assume "\<not> exponent x < j"
  then have "j \<le> exponent x" by simp
  then have "(2::real) powi j \<le> 2 powi (exponent x)"
    by (simp add: power_int_increasing)
  with exponent_bounds [OF assms(1)] assms(2) show False by linarith
qed

lemma round_half_even_ge:
  assumes "of_int L \<le> q"
  shows "L \<le> round_half_even q"
proof -
  from assms have "L \<le> \<lfloor>q\<rfloor>" by (simp add: le_floor_iff)
  then show ?thesis by (simp add: round_half_even_def)
qed

lemma round_half_even_less:
  assumes "q < of_int K - 1 / 2"
  shows "round_half_even q < K"
proof -
  have f: "of_int \<lfloor>q\<rfloor> \<le> q" by simp
  with assms have a: "\<lfloor>q\<rfloor> < K" by linarith
  show ?thesis
  proof (cases "q - of_int \<lfloor>q\<rfloor> < 1 / 2")
    case True
    with a show ?thesis by (simp add: round_half_even_def)
  next
    case False
    with assms have "of_int \<lfloor>q\<rfloor> + 1 < (of_int K :: real)" by linarith
    then have "\<lfloor>q\<rfloor> + 1 < K" by linarith
    with a show ?thesis by (simp add: round_half_even_def)
  qed
qed

lemma pow2_neg: "n \<le> 0 \<Longrightarrow> (2::real) powi n = 1 / 2 ^ nat (- n)"
  by (simp add: power_int_def inverse_eq_divide power_one_over)

lemma pow2_nonneg: "0 \<le> n \<Longrightarrow> (2::real) powi n = 2 ^ nat n"
  by (simp add: power_int_def)

lemma pow2_split: "(2::real) powi (a + b) = 2 powi a * 2 powi b"
  by (simp add: power_int_add)


lemma double_multiple:
  assumes dbl: "round_double t = Num t" and pos: "0 < t" and big: "2 powi j \<le> t"
    and j: "- 1022 \<le> j"
  shows "\<exists>M::int. t = of_int M * 2 powi (j - 52)"
proof -
  define et where "et = exponent t"
  define mt where "mt = round_half_even (t / ulp t)"
  from exponent_ge [OF pos big] have jet: "j \<le> et" by (simp add: et_def)
  with j have mx: "max et (- 1022) = et" by simp
  have ut: "ulp t = 2 powi (et - 52)"
    by (simp add: ulp_def et_def [symmetric] mx)
  from dbl pos have "t = of_int mt * ulp t"
    by (simp add: round_double_def mt_def split: if_splits)
  also have "ulp t = 2 powi ((et - j) + (j - 52))"
    by (simp add: ut)
  also have "\<dots> = 2 powi (et - j) * 2 powi (j - 52)"
    by (rule pow2_split)
  also have "2 powi (et - j) = (2::real) ^ nat (et - j)"
    using jet by (simp add: pow2_nonneg)
  finally have "t = of_int (mt * 2 ^ nat (et - j)) * 2 powi (j - 52)"
    by simp
  then show ?thesis by blast
qed

lemma round_double_floor:
  assumes dbl: "round_double t = Num t" and pos: "0 < t" and small: "t < 2 ^ 53"
  shows "\<exists>y. round_double (t / 60) = Num y \<and> \<lfloor>y\<rfloor> = \<lfloor>t / 60\<rfloor>"
proof -
  define r where "r = t / 60"
  define e where "e = max (exponent r) (- 1022)"
  define N where "N = (2::nat) ^ nat (52 - e)"
  define m where "m = round_half_even (r * real N)"
  define k where "k = \<lfloor>r\<rfloor> + 1"
  have rpos: "0 < r" using pos by (simp add: r_def)
  have "r < 2 powi 48" using small by (simp add: r_def)
  from exponent_less [OF rpos this] have e46: "e \<le> 47" by (simp add: e_def)
  have u: "ulp r = 1 / real N"
    using e46 by (simp add: ulp_def e_def [symmetric] N_def pow2_neg)
  have Npos: "0 < real N" by (simp add: N_def)
  have N64: "32 \<le> real N"
  proof -
    from e46 have "5 \<le> nat (52 - e)" by simp
    then have "(2::real) ^ 5 \<le> 2 ^ nat (52 - e)" by (rule power_increasing) simp
    then show ?thesis by (simp add: N_def)
  qed
  have k0: "0 \<le> \<lfloor>r\<rfloor>" using rpos by simp
  have rk: "r < of_int k" "of_int k - 1 \<le> r" by (simp_all add: k_def) 
  \<comment> \<open>lower bound\<close>
  have "of_int (\<lfloor>r\<rfloor> * int N) \<le> r * real N"
    using Npos by (simp add: mult_right_mono)
  from round_half_even_ge [OF this] have mlo: "\<lfloor>r\<rfloor> * int N \<le> m" by (simp add: m_def)
  \<comment> \<open>upper bound\<close>
  have half: "1 / (2 * real N) \<le> 1 / 64"
    using N64 by (simp add: field_simps)
  have gap: "r < of_int k - 1 / (2 * real N)"
  proof (cases "r < 1 / 2")
    case True
    then have "\<lfloor>r\<rfloor> = 0" using rpos by linarith
    then have "k = 1" by (simp add: k_def)
    with True half show ?thesis by simp
  next
    case False
    then have "2 powi (- 1) \<le> r" by (simp add: power_int_minus_divide)
    from exponent_ge [OF rpos this] have ee: "e = exponent r" by (simp add: e_def)
    with exponent_bounds [OF rpos] have er: "2 powi e \<le> r" by simp
    from ee \<open>2 powi (- 1) \<le> r\<close> exponent_ge [OF rpos] have em1: "- 1 \<le> e" by simp
    have "2 powi (e + 5) = 32 * (2::real) powi e"
      by (simp add: pow2_split)
    moreover have "0 < (2::real) powi e" by simp
    moreover from er have "60 * 2 powi e \<le> t" by (simp add: r_def)
    ultimately have tbig: "2 powi (e + 5) \<le> t" by linarith
    from double_multiple [OF dbl pos tbig] em1 obtain M :: int
      where M: "t = of_int M * 2 powi (e - 47)" by auto
    define W where "W = (2::nat) ^ nat (47 - e)"
    have w: "(2::real) powi (e - 47) = 1 / real W"
      using e46 by (simp add: W_def pow2_neg)
    have Wpos: "0 < real W" by (simp add: W_def)
    have NW: "real N = 32 * real W"
    proof -
      from e46 have "nat (52 - e) = 5 + nat (47 - e)" by simp
      then show ?thesis by (simp add: N_def W_def power_add)
    qed
    from M w Wpos have tW: "t * real W = of_int M" by (simp add: field_simps)
    from rk(1) pos have "t < 60 * of_int k" by (simp add: r_def)
    with Wpos have "t * real W < 60 * of_int k * real W" by simp
    with tW have "of_int M < (of_int (60 * k * int W) :: real)" by simp
    then have "M < 60 * k * int W" by (simp only: of_int_less_iff)
    then have "M + 1 \<le> 60 * k * int W" by simp
    then have "(of_int (M + 1) :: real) \<le> of_int (60 * k * int W)" by (simp only: of_int_le_iff)
    with tW have "t * real W + 1 \<le> 60 * of_int k * real W" by simp
    then have "r * real W + 1 / 60 \<le> of_int k * real W" by (simp add: r_def)
    then have "r + 1 / (60 * real W) \<le> of_int k"
      using Wpos by (simp add: field_simps)
    moreover have "1 / (2 * real N) < 1 / (60 * real W)"
      using Wpos by (simp add: NW field_simps)
    ultimately show ?thesis by linarith
  qed
  have "r * real N < of_int (k * int N) - 1 / 2"
    using gap Npos by (simp add: field_simps)
  from round_half_even_less [OF this] have mhi: "m < k * int N" by (simp add: m_def)
  define y where "y = of_int m / real N"
  have ylo: "of_int \<lfloor>r\<rfloor> \<le> y"
  proof -
    from mlo have "(of_int (\<lfloor>r\<rfloor> * int N) :: real) \<le> of_int m" by (simp only: of_int_le_iff)
    then show ?thesis using Npos by (simp add: y_def field_simps)
  qed
  have yhi: "y < of_int k"
  proof -
    from mhi have "(of_int m :: real) < of_int (k * int N)" by (simp only: of_int_less_iff)
    then show ?thesis using Npos by (simp add: y_def field_simps)
  qed
  have fl: "\<lfloor>y\<rfloor> = \<lfloor>r\<rfloor>"
    using ylo yhi unfolding k_def by linarith
  have "y < 2 powi 1024"
  proof -
    from yhi rk(2) \<open>r < 2 powi 48\<close> have "y < 2 powi 48 + 1" by linarith
    also have "\<dots> < (2::real) powi 1024" by simp
    finally show ?thesis .
  qed
  then have "round_double r = Num y"
    using rpos by (simp add: round_double_def u y_def m_def)
  with fl show ?thesis unfolding r_def by blast
qed

lemma digit_char_eval:
  "digit_char 0 = CHR ''0''" "digit_char 1 = CHR ''1''" "digit_char 2 = CHR ''2''"
  "digit_char 3 = CHR ''3''" "digit_char 4 = CHR ''4''" "digit_char 5 = CHR ''5''"
  "digit_char 6 = CHR ''6''" "digit_char 7 = CHR ''7''" "digit_char 8 = CHR ''8''"
  "digit_char 9 = CHR ''9''" "digit_char (Suc 0) = CHR ''1''"
  by code_simp+

lemma string_of_nat_eval:
  "n < 10 \<Longrightarrow> string_of_nat n = [digit_char n]"
  "\<not> n < 10 \<Longrightarrow> string_of_nat n = string_of_nat (n div 10) @ [digit_char (n mod 10)]"
  by (simp_all add: string_of_nat.simps [of n])

lemma digit_char_value: "d < 10 \<Longrightarrow> of_char (digit_char d) - 48 = d"
  by (simp add: digit_char_def)

lemma decimal_value_string_of_nat: "decimal_value (string_of_nat n) = n"
proof (induction n rule: string_of_nat.induct)
  case (1 n)
  show ?case
  proof (cases "n < 10")
    case True
    then show ?thesis
      by (simp add: string_of_nat_eval decimal_value_def digit_char_value)
  next
    case False
    with "1.IH" have "decimal_value (string_of_nat (n div 10)) = n div 10" by simp
    with False show ?thesis
      by (simp add: string_of_nat_eval decimal_value_def digit_char_value)
  qed
qed

lemma digit_char_0: "digit_char 0 = CHR ''0''"
  by code_simp

lemma padStart_two_digits:
  assumes "n < 60"
  shows "padStart 2 (CHR ''0'') (string_of_nat n)
         = [digit_char (n div 10), digit_char (n mod 10)]"
proof (cases "n < 10")
  case True
  then show ?thesis
    by (simp add: string_of_nat.simps [of n] padStart_def digit_char_0)
next
  case False
  with assms have "n div 10 < 10" by simp
  with False show ?thesis
    by (simp add: string_of_nat.simps [of n] string_of_nat.simps [of "n div 10"]
        padStart_def)
qed

section \<open>Properties of the view\<close>

text \<open>
  C1. For every value the progress slider delivers (a finite number within its
  bounds \<open>0\<close> and \<open>duration || 0\<close>), the seek handler sets both the position of the
  native handle and the displayed elapsed time to the requested value clamped to
  \<open>[0, duration]\<close>, and does not throw; within these bounds the clamped value is the
  requested value itself. The displayed duration is a number. Where the handle is
  not attached yet, the handler does nothing: the slider then delivers 0 only, which
  the displayed elapsed time is already.
\<close>

theorem handleSeek_within_slider:
  assumes "within_slider (Seek time) s"
    and "duration s \<noteq> NaN"
    and "idle_until_attached s"
  shows "thrown (handleSeek time s) = None
       \<and> currentTime (state_after (handleSeek time s)) = clamp (Num 0) (duration s) time
       \<and> audioRef (state_after (handleSeek time s))
           = map_option (\<lambda>a. a\<lparr>audio_currentTime := clamp (Num 0) (duration s) time\<rparr>)
               (audioRef s)
       \<and> clamp (Num 0) (duration s) time = time"
proof -
  from assms(1) obtain x where x: "time = Num x" "0 \<le> x"
    "num_le (Num x) (num_or (duration s) (Num 0))"
    by (cases time) simp_all
  from x(2,3) assms(2) have "num_le (Num x) (duration s)"
    by (cases "duration s") (simp_all split: if_splits)
  with x(1,2) have c: "clamp (Num 0) (duration s) time = time"
    by (simp add: clamp_within)
  show ?thesis
  proof (cases "audioRef s")
    case None
    with assms(3) have "currentTime s = Num 0" "duration s = Num 0"
      by (simp_all add: idle_until_attached_def)
    with x have "currentTime s = time" by simp
    with None show ?thesis
      unfolding c by (simp add: handleSeek_def)
  next
    case (Some a)
    with x(1) show ?thesis
      unfolding c by (simp add: handleSeek_def)
  qed
qed

theorem handleSeek_within_slider_witness:
  "within_slider (Seek (Num 4)) mounted_state
   \<and> duration mounted_state = Num 10
   \<and> idle_until_attached mounted_state
   \<and> clamp (Num 0) (Num 10) (Num 4) = Num 4
   \<and> thrown (handleSeek (Num 4) mounted_state) = None
   \<and> currentTime (state_after (handleSeek (Num 4) mounted_state)) = Num 4
   \<and> map_option audio_currentTime (audioRef (state_after (handleSeek (Num 4) mounted_state)))
       = Some (Num 4)
   \<and> within_slider (Seek (Num 0)) initial_state
   \<and> idle_until_attached initial_state
   \<and> currentTime (state_after (handleSeek (Num 0) initial_state)) = Num 0"
proof -
  have w: "within_slider (Seek (Num 4)) mounted_state"
    by (simp add: fields_mounted_state)
  have d: "duration mounted_state \<noteq> NaN"
    by (simp add: fields_mounted_state)
  have b: "idle_until_attached mounted_state"
    by (simp add: idle_until_attached_def audioRef_mounted_state)
  have w0: "within_slider (Seek (Num 0)) initial_state"
    by (simp add: initial_state_def)
  have d0: "duration initial_state \<noteq> NaN"
    by (simp add: initial_state_def)
  have b0: "idle_until_attached initial_state"
    by (simp add: idle_until_attached_def initial_state_def)
  have c0: "clamp (Num 0) (duration initial_state) (Num 0) = Num 0"
    by (simp add: clamp_def initial_state_def)
  from handleSeek_within_slider [OF w d b] handleSeek_within_slider [OF w0 d0 b0]
    w b w0 b0 c0
  show ?thesis
    by (simp add: fields_mounted_state audioRef_mounted_state)
qed

text \<open>
  C2. Every operation of the player (toggle play/pause, seek, volume change, track
  selection, search), with the values the two sliders deliver, preserves the
  invariant that the volume lies in \<open>[0, 1]\<close> and the displayed elapsed time in
  \<open>[0, duration]\<close>; none of them throws.
\<close>

theorem operations_preserve_invariant:
  assumes "player_invariant s" and "within_slider op s"
  shows "player_invariant (state_after (perform op s)) \<and> thrown (perform op s) = None"
proof (cases op)
  case TogglePlay
  with assms show ?thesis
    by (cases "audioRef s") (simp_all add: player_invariant_def togglePlay_def)
next
  case (Seek time)
  with assms(2) obtain x where x: "time = Num x" "0 \<le> x"
    "num_le (Num x) (num_or (duration s) (Num 0))"
    by (cases time) simp_all
  from assms(1) have "num_or (duration s) (Num 0) = duration s"
    by (cases "duration s"; cases "currentTime s") (auto simp: player_invariant_def)
  with assms(1) Seek x show ?thesis
    by (cases "audioRef s") (simp_all add: player_invariant_def handleSeek_def)
next
  case (VolumeChange newVolume)
  with assms(2) obtain x where "newVolume = Num x" "0 \<le> x" "x \<le> 1"
    by (cases newVolume) simp_all
  with assms(1) VolumeChange show ?thesis
    by (cases "audioRef s") (simp_all add: player_invariant_def handleVolumeChange_def)
next
  case (SelectTrack t)
  from assms(1) have "num_le (Num 0) (duration s)"
    by (cases "duration s"; cases "currentTime s") (auto simp: player_invariant_def)
  with assms SelectTrack show ?thesis
    by (cases "audioRef s") (simp_all add: player_invariant_def changeTrack_def)
next
  case (Search q)
  with assms show ?thesis
    by (simp add: player_invariant_def setSearchQuery_def)
qed

theorem operations_preserve_invariant_witness:
  "player_invariant mounted_state
   \<and> within_slider (Seek (Num 4)) mounted_state
   \<and> player_invariant (state_after (perform (Seek (Num 4)) mounted_state))
   \<and> thrown (perform (Seek (Num 4)) mounted_state) = None
   \<and> within_slider (VolumeChange (Num 0.3)) mounted_state
   \<and> player_invariant (state_after (perform (VolumeChange (Num 0.3)) mounted_state))
   \<and> thrown (perform (VolumeChange (Num 0.3)) mounted_state) = None"
proof -
  have i: "player_invariant mounted_state"
    by (simp add: player_invariant_def fields_mounted_state)
  have w1: "within_slider (Seek (Num 4)) mounted_state"
    by (simp add: fields_mounted_state)
  have w2: "within_slider (VolumeChange (Num 0.3)) mounted_state"
    by simp
  from operations_preserve_invariant [OF i w1] operations_preserve_invariant [OF i w2]
    i w1 w2
  show ?thesis by blast
qed

text \<open>
  C3. The claim as written ("for every state") fails in a state without a handle:
  there the toggle neither inverts the flag nor calls anything.
\<close>

theorem togglePlay_no_handle_counterexample:
  "\<not> (isPlaying (togglePlay initial_state) = (\<not> isPlaying initial_state))
   \<and> togglePlay initial_state = initial_state"
  by (simp add: togglePlay_def initial_state_def)

text \<open>
  C3 (amended). In every state in which the native handle is present, the play/pause
  toggle inverts the is-playing flag and calls exactly one native method exactly once:
  \<open>pause\<close> when the flag was true, \<open>play\<close> when it was false. Nothing else of the
  handle or of the state changes.
\<close>

theorem togglePlay_with_handle:
  assumes "audioRef s = Some a"
  shows "isPlaying (togglePlay s) = (\<not> isPlaying s)
       \<and> audioRef (togglePlay s)
           = Some (a\<lparr>audio_calls := audio_calls a @ [if isPlaying s then Pause else Play]\<rparr>)
       \<and> currentTime (togglePlay s) = currentTime s
       \<and> duration (togglePlay s) = duration s
       \<and> volume (togglePlay s) = volume s
       \<and> currentTrack (togglePlay s) = currentTrack s
       \<and> searchQuery (togglePlay s) = searchQuery s"
  using assms by (simp add: togglePlay_def call_def)

theorem togglePlay_with_handle_witness:
  "isPlaying (togglePlay mounted_state) = True
   \<and> map_option audio_calls (audioRef (togglePlay mounted_state)) = Some [Play]
   \<and> isPlaying (togglePlay (togglePlay mounted_state)) = False
   \<and> map_option audio_calls (audioRef (togglePlay (togglePlay mounted_state)))
       = Some [Play, Pause]"
proof -
  note h = audioRef_mounted_state
  note first = togglePlay_with_handle [OF h]
  from first have h2: "audioRef (togglePlay mounted_state)
      = Some (loaded_audio\<lparr>audio_listeners :=
           [(TimeUpdate, UpdateTime), (LoadedMetadata, UpdateDuration), (Ended, HandleEnded)],
         audio_calls := [Play]\<rparr>)"
    by (simp add: fields_mounted_state loaded_audio_def)
  note second = togglePlay_with_handle [OF h2]
  from first second show ?thesis
    by (simp add: fields_mounted_state loaded_audio_def)
qed

text \<open>
  C5. Selecting a track makes it the active track, resets the elapsed time to 0 and
  the is-playing flag to false, and replaces the source locator of the native handle
  (when there is one) with the URL of that track.
\<close>

theorem changeTrack_effect:
  "currentTrack (changeTrack t s) = t
   \<and> currentTime (changeTrack t s) = Num 0
   \<and> isPlaying (changeTrack t s) = False
   \<and> audioRef (changeTrack t s) = map_option (\<lambda>a. a\<lparr>audio_src := url t\<rparr>) (audioRef s)"
  by (cases "audioRef s") (simp_all add: changeTrack_def)

text \<open>
  C6. For every value the volume slider delivers (a finite number within its bounds
  \<open>0\<close> and \<open>1\<close>), the volume-change handler stores that value, unchanged, in the
  displayed volume and in the volume of the native handle (when there is one), and
  does not throw.
\<close>

theorem handleVolumeChange_within_slider:
  assumes "within_slider (VolumeChange v) s"
  shows "thrown (handleVolumeChange v s) = None
       \<and> volume (state_after (handleVolumeChange v s)) = v
       \<and> audioRef (state_after (handleVolumeChange v s))
           = map_option (\<lambda>a. a\<lparr>audio_volume := v\<rparr>) (audioRef s)"
proof -
  from assms obtain x where "v = Num x" "0 \<le> x" "x \<le> 1"
    by (cases v) simp_all
  then show ?thesis
    by (cases "audioRef s") (simp_all add: handleVolumeChange_def)
qed

theorem handleVolumeChange_within_slider_witness:
  "within_slider (VolumeChange (Num 0.3)) mounted_state
   \<and> thrown (handleVolumeChange (Num 0.3) mounted_state) = None
   \<and> volume (state_after (handleVolumeChange (Num 0.3) mounted_state)) = Num 0.3
   \<and> map_option audio_volume (audioRef (state_after (handleVolumeChange (Num 0.3) mounted_state)))
       = Some (Num 0.3)"
proof -
  have w: "within_slider (VolumeChange (Num 0.3)) mounted_state"
    by simp
  from handleVolumeChange_within_slider [OF w] w show ?thesis
    by (simp add: audioRef_mounted_state)
qed

text \<open>
  C8. Without a native handle (\<open>audioRef.current\<close> is null) the play/pause toggle and
  the seek handler leave the whole state as it is, so the is-playing flag, the elapsed
  time, the volume, the active track and the search string are unchanged; the
  volume-change handler still stores the new volume, and changes nothing else. None
  of the three throws.
\<close>

theorem no_handle_frame:
  assumes "audioRef s = None"
  shows "togglePlay s = s \<and> handleSeek time s = Returned s
       \<and> handleVolumeChange v s = Returned (s\<lparr>volume := v\<rparr>)
       \<and> volume (state_after (handleVolumeChange v s)) = v"
  using assms by (simp add: togglePlay_def handleSeek_def handleVolumeChange_def)

theorem no_handle_frame_witness:
  "audioRef initial_state = None
   \<and> togglePlay initial_state = initial_state
   \<and> handleSeek (Num 5) initial_state = Returned initial_state
   \<and> handleVolumeChange (Num 0.3) initial_state
       = Returned (initial_state\<lparr>volume := Num 0.3\<rparr>)
   \<and> volume (state_after (handleVolumeChange (Num 0.3) initial_state)) = Num 0.3"
proof -
  have h: "audioRef initial_state = None"
    by (simp add: initial_state_def)
  from no_handle_frame [OF h, of "Num 5" "Num 0.3"] h show ?thesis
    by simp
qed

text \<open>
  C9. When the handle emits \<open>ended\<close>, with the listeners of the effect attached, the
  is-playing flag becomes false; the elapsed time, the duration, the volume, the
  active track, the search string and the handle are as before.
\<close>

theorem ended_event:
  assumes "audioRef s = Some a"
    and "audio_listeners a
         = [(TimeUpdate, UpdateTime), (LoadedMetadata, UpdateDuration), (Ended, HandleEnded)]"
  shows "isPlaying (emit Ended s) = False
       \<and> currentTime (emit Ended s) = currentTime s
       \<and> duration (emit Ended s) = duration s
       \<and> volume (emit Ended s) = volume s
       \<and> currentTrack (emit Ended s) = currentTrack s
       \<and> searchQuery (emit Ended s) = searchQuery s
       \<and> audioRef (emit Ended s) = audioRef s"
  using assms by (simp add: emit_def handleEnded_def)

theorem ended_event_witness:
  "isPlaying (togglePlay mounted_state) = True
   \<and> isPlaying (emit Ended (togglePlay mounted_state)) = False
   \<and> currentTime (emit Ended (togglePlay mounted_state)) = Num 0
   \<and> duration (emit Ended (togglePlay mounted_state)) = Num 10
   \<and> volume (emit Ended (togglePlay mounted_state)) = Num 0.7
   \<and> currentTrack (emit Ended (togglePlay mounted_state)) = sampleTracks ! 0
   \<and> searchQuery (emit Ended (togglePlay mounted_state)) = []"
proof -
  have h: "audioRef (togglePlay mounted_state)
      = Some (loaded_audio\<lparr>audio_listeners :=
           [(TimeUpdate, UpdateTime), (LoadedMetadata, UpdateDuration), (Ended, HandleEnded)],
         audio_calls := [Play]\<rparr>)"
    by (simp add: togglePlay_def call_def audioRef_mounted_state fields_mounted_state
        loaded_audio_def)
  have f: "isPlaying (togglePlay mounted_state) = True"
    "currentTime (togglePlay mounted_state) = Num 0"
    "duration (togglePlay mounted_state) = Num 10"
    "volume (togglePlay mounted_state) = Num 0.7"
    "currentTrack (togglePlay mounted_state) = sampleTracks ! 0"
    "searchQuery (togglePlay mounted_state) = []"
    by (simp_all add: togglePlay_def audioRef_mounted_state fields_mounted_state)
  from ended_event [OF h] f show ?thesis
    by simp
qed

text \<open>
  C10. The claim as written fails for large times: the quotient \<open>t / 60\<close> is rounded to
  a double before it is floored. At the double \<open>t = 60 * 2^50 + 56\<close> the exact quotient
  lies between \<open>2^50\<close> and \<open>2^50 + 1\<close>, so \<open>floor(t / 60)\<close> is \<open>2^50 = 1125899906842624\<close>;
  the doubles there are a quarter apart, the quotient rounds to \<open>2^50 + 1\<close>, and
  \<open>formatTime\<close> prints 1125899906842625 for the minutes.
\<close>

theorem formatTime_large_counterexample:
  "is_double (60 * 2 ^ 50 + 56)
   \<and> \<lfloor>(60 * 2 ^ 50 + 56) / 60 :: real\<rfloor> = 1125899906842624
   \<and> Math_floor (num_div (Num (60 * 2 ^ 50 + 56)) 60) = Num 1125899906842625
   \<and> formatTime (\<lambda>x. []) (Num (60 * 2 ^ 50 + 56)) = ''1125899906842625:56''"
  by (simp add: is_double_def formatTime_def round_double_def ulp_def exponent_def
      bit_length_eval round_half_even_def truncate_real_def string_of_int_def
      string_of_nat_eval digit_char_eval padStart_def)

text \<open>
  C10 (amended). For every finite time \<open>t \<ge> 0\<close>, \<open>formatTime\<close> returns the floor of the
  double quotient \<open>t / 60\<close> as JavaScript prints it, then a colon, then
  \<open>floor(t mod 60)\<close>, where \<open>t mod 60 = t - 60 * floor(t / 60)\<close>, as exactly two decimal
  digits, the first being 0 when the number is below 10. For every double \<open>t\<close> below
  \<open>2^53\<close> the floor of the double quotient is \<open>floor(t / 60)\<close>, and it is printed as the
  decimal digits of that number.
\<close>

theorem formatTime_nonneg:
  assumes "0 \<le> t"
  shows "formatTime other (Num t) =
           toString other (Math_floor (num_div (Num t) 60)) @ '':'' @
           [digit_char (nat \<lfloor>t - 60 * of_int \<lfloor>t / 60\<rfloor>\<rfloor> div 10),
            digit_char (nat \<lfloor>t - 60 * of_int \<lfloor>t / 60\<rfloor>\<rfloor> mod 10)]
       \<and> (is_double t \<and> t < 2 ^ 53 \<longrightarrow>
            Math_floor (num_div (Num t) 60) = Num (of_int \<lfloor>t / 60\<rfloor>)
            \<and> toString other (Math_floor (num_div (Num t) 60)) = string_of_nat (nat \<lfloor>t / 60\<rfloor>)
            \<and> decimal_value (toString other (Math_floor (num_div (Num t) 60)))
                = nat \<lfloor>t / 60\<rfloor>)"
proof
  define k where "k = \<lfloor>t - 60 * of_int \<lfloor>t / 60\<rfloor>\<rfloor>"
  have r: "0 \<le> k \<and> k < 60" unfolding k_def by linarith
  have "toString other (Num (of_int k)) = string_of_nat (nat k)"
    using r by (simp add: string_of_int_def)
  moreover have "nat k < 60" using r by linarith
  moreover have "num_rem (Num t) 60 = Num (t - 60 * of_int \<lfloor>t / 60\<rfloor>)"
    using assms by (simp add: truncate_real_def)
  ultimately show "formatTime other (Num t) =
           toString other (Math_floor (num_div (Num t) 60)) @ '':'' @
           [digit_char (nat \<lfloor>t - 60 * of_int \<lfloor>t / 60\<rfloor>\<rfloor> div 10),
            digit_char (nat \<lfloor>t - 60 * of_int \<lfloor>t / 60\<rfloor>\<rfloor> mod 10)]"
    by (simp add: formatTime_def padStart_two_digits Let_def k_def [symmetric])
next
  show "is_double t \<and> t < 2 ^ 53 \<longrightarrow>
            Math_floor (num_div (Num t) 60) = Num (of_int \<lfloor>t / 60\<rfloor>)
            \<and> toString other (Math_floor (num_div (Num t) 60)) = string_of_nat (nat \<lfloor>t / 60\<rfloor>)
            \<and> decimal_value (toString other (Math_floor (num_div (Num t) 60)))
                = nat \<lfloor>t / 60\<rfloor>"
  proof
    assume a: "is_double t \<and> t < 2 ^ 53"
    have m: "Math_floor (num_div (Num t) 60) = Num (of_int \<lfloor>t / 60\<rfloor>)"
    proof (cases "t = 0")
      case True
      then show ?thesis by (simp add: round_double_def)
    next
      case False
      with assms have "0 < t" by simp
      with a round_double_floor [of t] obtain y
        where "round_double (t / 60) = Num y" "\<lfloor>y\<rfloor> = \<lfloor>t / 60\<rfloor>"
        by (auto simp: is_double_def)
      then show ?thesis by simp
    qed
    from a have "t / 60 < 2 ^ 53" by simp
    then have "\<lfloor>t / 60\<rfloor> < 2 ^ 53" by (simp add: floor_less_iff)
    moreover from assms have "0 \<le> \<lfloor>t / 60\<rfloor>" by simp
    ultimately have "toString other (Num (of_int \<lfloor>t / 60\<rfloor>)) = string_of_nat (nat \<lfloor>t / 60\<rfloor>)"
      by (simp add: string_of_int_def abs_if)
    with m show "Math_floor (num_div (Num t) 60) = Num (of_int \<lfloor>t / 60\<rfloor>)
            \<and> toString other (Math_floor (num_div (Num t) 60)) = string_of_nat (nat \<lfloor>t / 60\<rfloor>)
            \<and> decimal_value (toString other (Math_floor (num_div (Num t) 60)))
                = nat \<lfloor>t / 60\<rfloor>"
      by (simp add: decimal_value_string_of_nat)
  qed
qed

theorem formatTime_nonneg_witness:
  "\<forall>other. (0::real) \<le> 125.5 \<and> is_double 125.5 \<and> (125.5::real) < 2 ^ 53
     \<and> formatTime other (Num 125.5) = ''2:05''"
proof
  fix other
  have d: "is_double 125.5"
    by (simp add: is_double_def round_double_def ulp_def exponent_def bit_length_eval
        round_half_even_def)
  have s: "string_of_nat 2 = ''2''"
    by (simp add: string_of_nat_eval digit_char_eval)
  from formatTime_nonneg [of "125.5" other] d s
  show "(0::real) \<le> 125.5 \<and> is_double 125.5 \<and> (125.5::real) < 2 ^ 53
     \<and> formatTime other (Num 125.5) = ''2:05''"
    by (simp add: digit_char_eval string_of_int_def)
qed

section \<open>Properties of the documented API\<close>

text \<open>
  C7. \<open>POST /resume\<close> succeeds, and resumes playback, exactly when the player is paused;
  \<open>POST /pause\<close> succeeds, and pauses playback, exactly when the player is not paused;
  in the other state each throws an error and the player is unchanged.
\<close>

theorem resume_pause_documented:
  "(fst (post_resume p) = Success \<longleftrightarrow> paused p)
   \<and> (fst (post_pause p) = Success \<longleftrightarrow> \<not> paused p)
   \<and> (paused p \<longrightarrow> snd (post_resume p) = p\<lparr>paused := False\<rparr>)
   \<and> (\<not> paused p \<longrightarrow> snd (post_pause p) = p\<lparr>paused := True\<rparr>)
   \<and> (\<not> paused p \<longrightarrow> post_resume p = (Error, p))
   \<and> (paused p \<longrightarrow> post_pause p = (Error, p))"
  by (simp add: post_resume_def post_pause_def)

theorem resume_pause_documented_witness:
  "post_resume \<lparr>paused = True, queue = [''song.mp3''], remote_volume = 75\<rparr>
     = (Success, \<lparr>paused = False, queue = [''song.mp3''], remote_volume = 75\<rparr>)
   \<and> post_pause \<lparr>paused = True, queue = [''song.mp3''], remote_volume = 75\<rparr>
     = (Error, \<lparr>paused = True, queue = [''song.mp3''], remote_volume = 75\<rparr>)
   \<and> post_pause \<lparr>paused = False, queue = [''song.mp3''], remote_volume = 75\<rparr>
     = (Success, \<lparr>paused = True, queue = [''song.mp3''], remote_volume = 75\<rparr>)
   \<and> post_resume \<lparr>paused = False, queue = [''song.mp3''], remote_volume = 75\<rparr>
     = (Error, \<lparr>paused = False, queue = [''song.mp3''], remote_volume = 75\<rparr>)"
  using
    resume_pause_documented [of "\<lparr>paused = True, queue = [''song.mp3''], remote_volume = 75\<rparr>"]
    resume_pause_documented [of "\<lparr>paused = False, queue = [''song.mp3''], remote_volume = 75\<rparr>"]
  by (simp add: prod_eq_iff)

section \<open>Further properties of the effect hook\<close>

text \<open>
  With the listeners of the effect attached, a \<open>timeupdate\<close> of the handle copies the
  handle's position into the displayed elapsed time and changes nothing else.
\<close>

theorem timeupdate_event:
  assumes "audioRef s = Some a"
    and "audio_listeners a
         = [(TimeUpdate, UpdateTime), (LoadedMetadata, UpdateDuration), (Ended, HandleEnded)]"
  shows "emit TimeUpdate s = s\<lparr>currentTime := audio_currentTime a\<rparr>"
  using assms by (simp add: emit_def updateTime_def)

theorem timeupdate_event_witness:
  "currentTime (emit TimeUpdate (state_after (handleSeek (Num 4) mounted_state))) = Num 4
   \<and> duration (emit TimeUpdate (state_after (handleSeek (Num 4) mounted_state))) = Num 10"
proof -
  have h: "audioRef (state_after (handleSeek (Num 4) mounted_state))
      = Some (loaded_audio\<lparr>audio_listeners :=
           [(TimeUpdate, UpdateTime), (LoadedMetadata, UpdateDuration), (Ended, HandleEnded)],
         audio_currentTime := Num 4\<rparr>)"
    by (simp add: handleSeek_def audioRef_mounted_state)
  have d: "duration (state_after (handleSeek (Num 4) mounted_state)) = Num 10"
    by (simp add: handleSeek_def audioRef_mounted_state fields_mounted_state)
  from timeupdate_event [OF h] d show ?thesis
    by simp
qed

text \<open>
  With the listeners of the effect attached, a \<open>loadedmetadata\<close> of the handle copies
  the handle's duration into the displayed duration and changes nothing else.
\<close>

theorem loadedmetadata_event:
  assumes "audioRef s = Some a"
    and "audio_listeners a
         = [(TimeUpdate, UpdateTime), (LoadedMetadata, UpdateDuration), (Ended, HandleEnded)]"
  shows "emit LoadedMetadata s = s\<lparr>duration := audio_duration a\<rparr>"
  using assms by (simp add: emit_def updateDuration_def)

theorem loadedmetadata_event_witness:
  "duration (emit LoadedMetadata (mounted_state\<lparr>duration := Num 0\<rparr>)) = Num 10"
proof -
  have h: "audioRef (mounted_state\<lparr>duration := Num 0\<rparr>)
      = Some (loaded_audio\<lparr>audio_listeners :=
           [(TimeUpdate, UpdateTime), (LoadedMetadata, UpdateDuration), (Ended, HandleEnded)]\<rparr>)"
    by (simp add: audioRef_mounted_state)
  from loadedmetadata_event [OF h] show ?thesis
    by (simp add: loaded_audio_def)
qed

text \<open>
  On a handle that carries no listener, the effect attaches exactly its three
  listeners, and its cleanup detaches them again: the state is as before the effect.
\<close>

theorem effect_setup_cleanup:
  assumes "audioRef s = Some a" and "audio_listeners a = []"
  shows "audioRef (useEffect_setup s)
           = Some (a\<lparr>audio_listeners :=
               [(TimeUpdate, UpdateTime), (LoadedMetadata, UpdateDuration),
                (Ended, HandleEnded)]\<rparr>)
       \<and> useEffect_cleanup (useEffect_setup s) = s"
  using assms
  by (simp add: useEffect_setup_def useEffect_cleanup_def addEventListener_def
      removeEventListener_def)

theorem effect_setup_cleanup_witness:
  "useEffect_cleanup (useEffect_setup (initial_state\<lparr>audioRef := Some loaded_audio\<rparr>))
     = initial_state\<lparr>audioRef := Some loaded_audio\<rparr>"
proof -
  have h: "audioRef (initial_state\<lparr>audioRef := Some loaded_audio\<rparr>) = Some loaded_audio"
    by simp
  have e: "audio_listeners loaded_audio = []"
    by (simp add: loaded_audio_def)
  from effect_setup_cleanup [OF h e] show ?thesis
    by simp
qed

text \<open>
  No operation of the view attaches or detaches a listener: the listeners on the
  handle are the same before and after, and an operation never drops the handle.
\<close>

theorem operations_keep_listeners:
  "map_option audio_listeners (audioRef (state_after (perform op s)))
     = map_option audio_listeners (audioRef s)"
proof (cases op)
  case TogglePlay
  then show ?thesis
    by (cases "audioRef s") (simp_all add: togglePlay_def call_def)
next
  case (Seek time)
  then show ?thesis
    by (cases "audioRef s"; cases time) (simp_all add: handleSeek_def)
next
  case (VolumeChange newVolume)
  then show ?thesis
    by (cases "audioRef s"; cases newVolume) (simp_all add: handleVolumeChange_def)
next
  case (SelectTrack t)
  then show ?thesis
    by (cases "audioRef s") (simp_all add: changeTrack_def)
next
  case (Search q)
  then show ?thesis
    by (simp add: setSearchQuery_def)
qed

text \<open>
  The state before the element is attached: the initial state is such a state, and
  every operation and every event keeps it so. (A state with the element attached is
  one trivially.)
\<close>

theorem idle_until_attached_invariant:
  "idle_until_attached initial_state
   \<and> (idle_until_attached s \<longrightarrow> idle_until_attached (state_after (perform op s)))
   \<and> (idle_until_attached s \<longrightarrow> idle_until_attached (emit ev s))"
proof -
  have "idle_until_attached initial_state"
    by (simp add: idle_until_attached_def initial_state_def)
  moreover have "idle_until_attached (state_after (perform op s))" if "idle_until_attached s"
  proof (cases "audioRef s")
    case None
    with that show ?thesis
      by (cases op)
        (simp_all add: idle_until_attached_def togglePlay_def handleSeek_def
          handleVolumeChange_def changeTrack_def setSearchQuery_def)
  next
    case (Some a)
    have "audioRef (state_after (perform op s)) \<noteq> None"
    proof (cases op)
      case TogglePlay
      with Some show ?thesis by (simp add: togglePlay_def)
    next
      case (Seek time)
      with Some show ?thesis by (cases time) (simp_all add: handleSeek_def)
    next
      case (VolumeChange newVolume)
      with Some show ?thesis by (cases newVolume) (simp_all add: handleVolumeChange_def)
    next
      case (SelectTrack t)
      with Some show ?thesis by (simp add: changeTrack_def)
    next
      case (Search q)
      with Some show ?thesis by (simp add: setSearchQuery_def)
    qed
    then show ?thesis
      by (auto simp: idle_until_attached_def)
  qed
  moreover have "idle_until_attached (emit ev s)" if "idle_until_attached s"
  proof (cases "audioRef s")
    case None
    with that show ?thesis by (simp add: emit_def)
  next
    case (Some a)
    have "audioRef (run_listeners ev a ls s') = audioRef s'" for ls s'
    proof (induction ls arbitrary: s')
      case Nil
      show ?case by simp
    next
      case (Cons p ls)
      obtain e l where p: "p = (e, l)" by (cases p)
      show ?case
        by (cases l) (simp_all add: p Cons updateTime_def updateDuration_def handleEnded_def)
    qed
    with Some show ?thesis
      by (simp add: emit_def idle_until_attached_def)
  qed
  ultimately show ?thesis by blast
qed

theorem idle_until_attached_invariant_witness:
  "idle_until_attached initial_state
   \<and> idle_until_attached (state_after (perform (SelectTrack (sampleTracks ! 1)) initial_state))
   \<and> idle_until_attached (emit Ended initial_state)"
  using idle_until_attached_invariant [of initial_state "SelectTrack (sampleTracks ! 1)" Ended]
  by simp

section \<open>The error paths of the slider handlers\<close>

text \<open>
  A seek to a NaN or an infinity throws at the assignment to \<open>currentTime\<close>, before
  \<open>setCurrentTime\<close>: neither the state nor the handle changes.
\<close>

theorem handleSeek_not_finite:
  assumes "audioRef s = Some a" and "time \<in> {NaN, PosInfinity, NegInfinity}"
  shows "handleSeek time s = Threw TypeError s"
  using assms by (auto simp: handleSeek_def)

theorem handleSeek_not_finite_witness:
  "handleSeek NaN mounted_state = Threw TypeError mounted_state"
  using handleSeek_not_finite [OF audioRef_mounted_state, of NaN] by simp

text \<open>
  A volume outside \<open>[0, 1]\<close>, or one that is not finite, throws at the assignment to
  \<open>volume\<close>, after \<open>setVolume\<close>: the displayed volume has the new value, the handle
  keeps its old volume.
\<close>

theorem handleVolumeChange_refused:
  assumes "audioRef s = Some a" and "\<not> within_slider (VolumeChange v) s"
  shows "thrown (handleVolumeChange v s) \<noteq> None
       \<and> state_after (handleVolumeChange v s) = s\<lparr>volume := v\<rparr>"
  using assms by (cases v) (simp_all add: handleVolumeChange_def)

theorem handleVolumeChange_refused_witness:
  "handleVolumeChange (Num 2) mounted_state
     = Threw IndexSizeError (mounted_state\<lparr>volume := Num 2\<rparr>)
   \<and> map_option audio_volume (audioRef (state_after (handleVolumeChange (Num 2) mounted_state)))
       = Some (Num 1)"
proof -
  have w: "\<not> within_slider (VolumeChange (Num 2)) mounted_state"
    by simp
  from handleVolumeChange_refused [OF audioRef_mounted_state w] show ?thesis
    by (simp add: handleVolumeChange_def audioRef_mounted_state loaded_audio_def)
qed

end
